theory Spec2Isabelle
  imports Complex_Main "HOL-Library.AList" "HOL-Library.Sublist"
begin

section \<open>The icon generator \<^verbatim>\<open>icons/create_icon.py\<close>\<close>

text \<open>
  The script draws a terminal-window icon with the Pillow imaging library and saves it
  at six sizes. Its own code is integer arithmetic on the size, a fixed sequence of
  library calls, three \<^verbatim>\<open>try/except\<close> fallbacks and a loop over the sizes.

  The library is not part of the repository. What a library call does that the script
  cannot know (whether a font file loads, what a text measures, whether a call raises,
  which pixels a shape covers, whether a file can be written) is a field of the
  record \<open>env\<close>; every theorem holds for every such environment unless it says
  otherwise.
\<close>

subsection \<open>Values\<close>

text \<open>A colour is Pillow's RGBA 4-tuple.\<close>

type_synonym rgba = "int \<times> int \<times> int \<times> int"

text \<open>
  Coordinates are Python numbers. Most are integers; the text widths come back from the
  library as floats, and the fallback estimate multiplies by \<^verbatim>\<open>0.6\<close>. They are
  rationals here: the value the float arithmetic approximates.
\<close>

type_synonym box = "rat \<times> rat \<times> rat \<times> rat"

datatype font = TrueType string int | DefaultFont

text \<open>
  The four drawing calls the script makes, with the arguments it passes:
  \<^verbatim>\<open>rounded_rectangle(xy, radius, fill, outline, width)\<close>, \<^verbatim>\<open>ellipse(xy, fill)\<close>,
  \<^verbatim>\<open>text(xy, text, fill, font)\<close> and \<^verbatim>\<open>rectangle(xy, fill)\<close>.
\<close>

datatype draw_op =
    RoundedRectangle box int "rgba option" "rgba option" int
  | Ellipse box rgba
  | Text "rat \<times> rat" string rgba font
  | Rectangle box rgba

text \<open>
  An image is its canvas (mode, size, the colour it was created with) and the drawing
  calls applied to it since, oldest first.
\<close>

record image =
  mode :: string
  width :: int
  height :: int
  background :: rgba
  drawn :: "draw_op list"

text \<open>An uncaught exception, named by the call that raised it.\<close>

datatype error =
    NewFailed "int \<times> int"
  | FontFailed string
  | MeasureFailed
  | DrawFailed draw_op
  | SaveFailed string

record env =
  font_loads :: "string \<Rightarrow> int \<Rightarrow> bool"
  text_length :: "font \<Rightarrow> string \<Rightarrow> rat option"
  draw_accepts :: "image \<Rightarrow> draw_op \<Rightarrow> bool"
  shape :: "draw_op \<Rightarrow> int \<times> int \<Rightarrow> bool"
  blend :: "draw_op \<Rightarrow> int \<times> int \<Rightarrow> rgba \<Rightarrow> rgba"
  can_save :: "string \<Rightarrow> bool"

subsection \<open>Exceptions\<close>

definition and_then :: "error + 'a \<Rightarrow> ('a \<Rightarrow> error + 'b) \<Rightarrow> error + 'b" where
  "and_then m f = (case m of Inl e \<Rightarrow> Inl e | Inr v \<Rightarrow> f v)"

text \<open>A bare \<^verbatim>\<open>except:\<close> catches whatever the body raises.\<close>

definition try_except :: "error + 'a \<Rightarrow> error + 'a \<Rightarrow> error + 'a" where
  "try_except body handler = (case body of Inl e \<Rightarrow> handler | Inr v \<Rightarrow> Inr v)"

subsection \<open>The library calls\<close>

text \<open>\<^verbatim>\<open>Image.new(mode, size, color)\<close> refuses a negative width or height.\<close>

definition Image_new :: "string \<Rightarrow> int \<times> int \<Rightarrow> rgba \<Rightarrow> error + image" where
  "Image_new m sz c =
     (if fst sz < 0 \<or> snd sz < 0 then Inl (NewFailed sz)
      else Inr \<lparr>mode = m, width = fst sz, height = snd sz, background = c, drawn = []\<rparr>)"

definition ImageFont_truetype :: "env \<Rightarrow> string \<Rightarrow> int \<Rightarrow> error + font" where
  "ImageFont_truetype lib path sz =
     (if font_loads lib path sz then Inr (TrueType path sz) else Inl (FontFailed path))"

text \<open>The built-in font is part of the library itself: there is no file to miss.\<close>

definition ImageFont_load_default :: "error + font" where
  "ImageFont_load_default = Inr DefaultFont"

definition getlength :: "env \<Rightarrow> font \<Rightarrow> string \<Rightarrow> error + rat" where
  "getlength lib f s = (case text_length lib f s of None \<Rightarrow> Inl MeasureFailed | Some w \<Rightarrow> Inr w)"

text \<open>A drawing call changes the pixels of the image it draws on, never its canvas.\<close>

definition draw :: "env \<Rightarrow> draw_op \<Rightarrow> image \<Rightarrow> error + image" where
  "draw lib op img =
     (if draw_accepts lib img op then Inr (img\<lparr>drawn := drawn img @ [op]\<rparr>)
      else Inl (DrawFailed op))"

definition ibox :: "int \<times> int \<times> int \<times> int \<Rightarrow> box" where
  "ibox b = (case b of (x0, y0, x1, y1) \<Rightarrow> (of_int x0, of_int y0, of_int x1, of_int y1))"

subsection \<open>\<^verbatim>\<open>create_terminal_icon\<close>\<close>

definition monaco :: string where
  "monaco = ''/System/Library/Fonts/Monaco.ttc''"

definition dejavu :: string where
  "dejavu = ''/usr/share/fonts/truetype/dejavu/DejaVuSansMono.ttf''"

text \<open>Line 46.\<close>

definition font_size :: "int \<Rightarrow> int" where
  "font_size sz = max 12 (sz div 25)"

text \<open>Lines 48 to 55: the nested \<^verbatim>\<open>try/except\<close> that picks the text font.\<close>

definition select_font :: "env \<Rightarrow> int \<Rightarrow> error + font" where
  "select_font lib fs =
     try_except (ImageFont_truetype lib monaco fs)
       (try_except (ImageFont_truetype lib dejavu fs)
          ImageFont_load_default)"

text \<open>
  Lines 62 to 65 and 70 to 73: the measured width of a text, or the estimate
  \<^verbatim>\<open>len(text) * font_size * 0.6\<close> when measuring raises.
\<close>

definition measured_width :: "env \<Rightarrow> font \<Rightarrow> string \<Rightarrow> int \<Rightarrow> error + rat" where
  "measured_width lib f s fs =
     try_except (getlength lib f s) (Inr (of_nat (length s) * of_int fs * (6 / 10)))"

text \<open>Lines 86 to 89.\<close>

definition select_logo_font :: "env \<Rightarrow> int \<Rightarrow> font \<Rightarrow> error + font" where
  "select_logo_font lib fs f = try_except (ImageFont_truetype lib monaco (fs + 4)) (Inr f)"

definition prompt_text :: string where
  "prompt_text = ''$ ''"

definition command_text :: string where
  "command_text = ''pH7Console --ai''"

text \<open>
  The label starts with the robot emoji U+1F916, written here as the four bytes of its
  UTF-8 encoding. The script never takes the length of this text.
\<close>

definition ai_text :: string where
  "ai_text = [CHR 0xF0, CHR 0x9F, CHR 0xA4, CHR 0x96] @ '' AI Ready''"

definition logo_text :: string where
  "logo_text = ''pH7''"

definition create_terminal_icon :: "env \<Rightarrow> int \<Rightarrow> error + image" where
  "create_terminal_icon lib sz =
     and_then (Image_new ''RGBA'' (sz, sz) (0, 0, 0, 0)) (\<lambda>img.
     let bg_color = (26, 27, 38, 255);
         border_color = (80, 250, 123, 255);
         text_color = (248, 248, 242, 255);
         cursor_color = (80, 250, 123, 255);
         margin = sz div 10;
         terminal_rect = (margin, margin, sz - margin, sz - margin)
     in
     and_then (draw lib (RoundedRectangle (ibox terminal_rect) (sz div 20)
                 (Some bg_color) (Some border_color) 3) img) (\<lambda>img.
     let title_bar_height = sz div 8;
         title_bar_rect = (margin + 3, margin + 3, sz - margin - 3, margin + 3 + title_bar_height)
     in
     and_then (draw lib (RoundedRectangle (ibox title_bar_rect) (sz div 30)
                 (Some (40, 42, 54, 255)) None 1) img) (\<lambda>img.
     let control_size = sz div 30;
         control_y = margin + title_bar_height div 2
     in
     and_then (draw lib (Ellipse (ibox (margin + 20, control_y - control_size div 2,
                 margin + 20 + control_size, control_y + control_size div 2))
                 (255, 85, 85, 255)) img) (\<lambda>img.
     and_then (draw lib (Ellipse (ibox (margin + 20 + control_size * 2, control_y - control_size div 2,
                 margin + 20 + control_size * 3, control_y + control_size div 2))
                 (255, 184, 108, 255)) img) (\<lambda>img.
     and_then (draw lib (Ellipse (ibox (margin + 20 + control_size * 4, control_y - control_size div 2,
                 margin + 20 + control_size * 5, control_y + control_size div 2))
                 (80, 250, 123, 255)) img) (\<lambda>img.
     let content_y = margin + title_bar_height + 10;
         line_height = sz div 20;
         fs = font_size sz
     in
     and_then (select_font lib fs) (\<lambda>font.
     let y_pos = content_y in
     and_then (draw lib (Text (of_int (margin + 20), of_int y_pos) prompt_text cursor_color font) img) (\<lambda>img.
     and_then (measured_width lib font prompt_text fs) (\<lambda>prompt_width.
     and_then (draw lib (Text (of_int (margin + 20) + prompt_width, of_int y_pos)
                 command_text text_color font) img) (\<lambda>img.
     and_then (measured_width lib font (prompt_text @ command_text) fs) (\<lambda>total_width.
     let cursor_x = of_int (margin + 20) + total_width + 5 in
     and_then (draw lib (Rectangle (cursor_x, of_int y_pos, cursor_x + 2, of_int (y_pos + fs))
                 cursor_color) img) (\<lambda>img.
     let ai_y = y_pos + line_height + 10 in
     and_then (draw lib (Text (of_int (margin + 20), of_int ai_y) ai_text cursor_color font) img) (\<lambda>img.
     let logo_y = ai_y + line_height + 10 in
     and_then (select_logo_font lib fs font) (\<lambda>logo_font.
     and_then (draw lib (Text (of_int (margin + 20), of_int logo_y) logo_text border_color logo_font) img) (\<lambda>img.
     Inr img)))))))))))))))"

subsection \<open>The files and the output\<close>

text \<open>
  What \<^verbatim>\<open>Image.save(name, format)\<close> leaves on disk is the image in that format;
  the encoder is the library's. A file the script found already there is \<open>Other\<close>.
\<close>

datatype content = Encoded string image | Other

text \<open>
  The events of a run, for the order in which things happen: a call of
  \<^verbatim>\<open>create_terminal_icon\<close> that returned, and a call of \<^verbatim>\<open>save\<close> that returned.
\<close>

datatype event = Drew int | Saved string

text \<open>
  The world the script acts on: the entries of the current working directory in the
  order \<^verbatim>\<open>os.listdir\<close> gives them, the lines printed so far, and the events so far.
\<close>

record world =
  files :: "(string \<times> content) list"
  stdout :: "string list"
  trace :: "event list"

text \<open>
  A statement leaves the world it reached and, when it raised, the exception:
  \<open>seq\<close> runs the next statement only after a normal end.
\<close>

definition seq :: "error option \<times> world \<Rightarrow> (world \<Rightarrow> error option \<times> world) \<Rightarrow> error option \<times> world" where
  "seq r k = (case r of (None, w) \<Rightarrow> k w | (Some e, w) \<Rightarrow> (Some e, w))"

definition save :: "env \<Rightarrow> image \<Rightarrow> string \<Rightarrow> string \<Rightarrow> world \<Rightarrow> error option \<times> world" where
  "save lib img name fmt w =
     (if can_save lib name
      then (None, w\<lparr>files := AList.update name (Encoded fmt img) (files w),
                     trace := trace w @ [Saved name]\<rparr>)
      else (Some (SaveFailed name), w))"

definition print :: "string \<Rightarrow> world \<Rightarrow> world" where
  "print line w = w\<lparr>stdout := stdout w @ [line]\<rparr>"

definition listdir :: "world \<Rightarrow> string list" where
  "listdir w = map fst (files w)"

definition endswith :: "string \<Rightarrow> string \<Rightarrow> bool" where
  "endswith s t =
     (length t \<le> length s \<and> drop (length s - length t) s = t)"

text \<open>\<^verbatim>\<open>str\<close> of an integer, as the f-string of line 103 formats it.\<close>

fun str_nat :: "nat \<Rightarrow> string" where
  "str_nat n =
     (if n < 10 then [''0123456789'' ! n]
      else str_nat (n div 10) @ [''0123456789'' ! (n mod 10)])"

declare str_nat.simps [simp del]

definition str :: "int \<Rightarrow> string" where
  "str i = (if i < 0 then CHR ''-'' # str_nat (nat (- i)) else str_nat (nat i))"

subsection \<open>\<^verbatim>\<open>main\<close>\<close>

text \<open>Lines 100 to 112: the body of the loop over the sizes.\<close>

definition loop_body :: "env \<Rightarrow> int \<Rightarrow> world \<Rightarrow> error option \<times> world" where
  "loop_body lib sz w =
     (case create_terminal_icon lib sz of
        Inl e \<Rightarrow> (Some e, w)
      | Inr icon \<Rightarrow>
          seq (save lib icon (''icon_'' @ str sz @ ''x'' @ str sz @ ''.png'') ''PNG''
                 (w\<lparr>trace := trace w @ [Drew sz]\<rparr>)) (\<lambda>w.
          if sz = 32 then save lib icon ''32x32.png'' ''PNG'' w
          else if sz = 128 then
            seq (save lib icon ''128x128.png'' ''PNG'' w) (\<lambda>w.
            save lib icon ''128x128@2x.png'' ''PNG'' w)
          else if sz = 512 then save lib icon ''icon.png'' ''PNG'' w
          else (None, w)))"

fun for_sizes :: "env \<Rightarrow> int list \<Rightarrow> world \<Rightarrow> error option \<times> world" where
  "for_sizes lib [] w = (None, w)"
| "for_sizes lib (sz # rest) w = seq (loop_body lib sz w) (for_sizes lib rest)"

text \<open>Lines 116 to 118.\<close>

fun print_pngs :: "string list \<Rightarrow> world \<Rightarrow> world" where
  "print_pngs [] w = w"
| "print_pngs (f # rest) w =
     print_pngs rest (if endswith f ''.png'' then print (''  '' @ f) w else w)"

definition sizes :: "int list" where
  "sizes = [16, 32, 64, 128, 256, 512]"

text \<open>
  A run starts in a directory with the entries \<open>dir\<close>, with nothing printed yet.
\<close>

definition main :: "env \<Rightarrow> (string \<times> content) list \<Rightarrow> error option \<times> world" where
  "main lib dir =
     seq (for_sizes lib sizes \<lparr>files = dir, stdout = [], trace = []\<rparr>) (\<lambda>w.
     let w = print ''Icons created successfully!'' w;
         w = print ''Files created:'' w
     in (None, print_pngs (listdir w) w))"

subsection \<open>Reading a run\<close>

text \<open>The names the loop body saves under for one size, in the order of lines 103 to 112.\<close>

definition names_for :: "int \<Rightarrow> string list" where
  "names_for sz =
     (''icon_'' @ str sz @ ''x'' @ str sz @ ''.png'') #
     (if sz = 32 then [''32x32.png'']
      else if sz = 128 then [''128x128.png'', ''128x128@2x.png'']
      else if sz = 512 then [''icon.png'']
      else [])"

text \<open>The names of the files a run has written, in the order it wrote them.\<close>

definition written :: "world \<Rightarrow> string list" where
  "written w = concat (map (\<lambda>ev. case ev of Drew sz \<Rightarrow> [] | Saved name \<Rightarrow> [name]) (trace w))"

subsection \<open>Pixels\<close>

text \<open>
  The library casts the coordinates of a box to C integers, which drops the fraction.
  A box covers the pixels from its first to its last corner, both included.
\<close>

definition trunc :: "rat \<Rightarrow> int" where
  "trunc r = (if 0 \<le> r then \<lfloor>r\<rfloor> else \<lceil>r\<rceil>)"

definition in_box :: "box \<Rightarrow> int \<times> int \<Rightarrow> bool" where
  "in_box b p = (case b of (x0, y0, x1, y1) \<Rightarrow> case p of (x, y) \<Rightarrow>
     trunc x0 \<le> x \<and> x \<le> trunc x1 \<and> trunc y0 \<le> y \<and> y \<le> trunc y1)"




subsection \<open>Sample environments\<close>

text \<open>
  A machine with neither font file and a library whose fonts cannot measure text: every
  fallback of the script is taken. Shapes fill their bounding box, a text fills a cell of
  7 by 12 pixels per character, and every file can be written.
\<close>

definition cell_shape :: "draw_op \<Rightarrow> int \<times> int \<Rightarrow> bool" where
  "cell_shape op p = (case op of
       Text xy s c f \<Rightarrow> in_box (fst xy, snd xy, fst xy + 7 * of_nat (length s) - 1, snd xy + 11) p
     | _ \<Rightarrow> True)"

definition fill_of :: "draw_op \<Rightarrow> int \<times> int \<Rightarrow> rgba \<Rightarrow> rgba" where
  "fill_of op p old = (case op of
       RoundedRectangle b r fill outline w \<Rightarrow> (case fill of None \<Rightarrow> old | Some c \<Rightarrow> c)
     | Ellipse b c \<Rightarrow> c
     | Text xy s c f \<Rightarrow> c
     | Rectangle b c \<Rightarrow> c)"

definition bare_env :: env where
  "bare_env = \<lparr>font_loads = (\<lambda>path sz. False), text_length = (\<lambda>f s. None),
     draw_accepts = (\<lambda>img op. True), shape = cell_shape, blend = fill_of,
     can_save = (\<lambda>name. True)\<rparr>"


text \<open>The same machine in a directory that cannot be written.\<close>

definition readonly_env :: env where
  "readonly_env = bare_env\<lparr>can_save := (\<lambda>name. False)\<rparr>"

section \<open>Properties\<close>





subsection \<open>What the fallbacks return\<close>

lemma and_then_Inl:
  "and_then m f = Inl e \<Longrightarrow> (m = Inl e \<Longrightarrow> P) \<Longrightarrow>
     (\<And>x. m = Inr x \<Longrightarrow> f x = Inl e \<Longrightarrow> P) \<Longrightarrow> P"
  by (cases m) (simp_all add: and_then_def)

lemma select_font_eq:
  "select_font lib fs =
     Inr (if font_loads lib monaco fs then TrueType monaco fs
          else if font_loads lib dejavu fs then TrueType dejavu fs
          else DefaultFont)"
  by (simp add: select_font_def try_except_def ImageFont_truetype_def ImageFont_load_default_def)

lemma measured_width_eq:
  "measured_width lib f s fs =
     Inr (case text_length lib f s of
            None \<Rightarrow> of_nat (length s) * of_int fs * (6 / 10)
          | Some w \<Rightarrow> w)"
  by (simp add: measured_width_def try_except_def getlength_def split: option.splits)

lemma select_logo_font_eq:
  "select_logo_font lib fs f =
     Inr (if font_loads lib monaco (fs + 4) then TrueType monaco (fs + 4) else f)"
  by (simp add: select_logo_font_def try_except_def ImageFont_truetype_def)

lemma draw_Inr:
  "draw_accepts lib img op \<Longrightarrow> draw lib op img = Inr (img\<lparr>drawn := drawn img @ [op]\<rparr>)"
  by (simp add: draw_def)

lemma draw_Inl: "draw lib op img = Inl e \<Longrightarrow> e = DrawFailed op"
  by (simp add: draw_def split: if_splits)

text \<open>
  The only exceptions that leave \<^verbatim>\<open>create_terminal_icon\<close> are those of
  \<^verbatim>\<open>Image.new\<close> and of the drawing calls.
\<close>

lemma create_terminal_icon_errors:
  assumes "create_terminal_icon lib sz = Inl e"
  shows "e = NewFailed (sz, sz) \<or> (\<exists>op. e = DrawFailed op)"
  using assms unfolding create_terminal_icon_def Let_def
  by (elim and_then_Inl)
     (auto simp: select_font_eq measured_width_eq select_logo_font_eq Image_new_def
           dest: draw_Inl split: if_splits)

lemma create_terminal_icon_returns:
  assumes "0 \<le> sz" and "\<forall>img op. draw_accepts lib img op"
  shows "\<exists>img. create_terminal_icon lib sz = Inr img"
  using assms
  by (simp add: create_terminal_icon_def Let_def and_then_def Image_new_def draw_Inr
        select_font_eq measured_width_eq select_logo_font_eq)

subsection \<open>The canvas\<close>



subsection \<open>The font\<close>

text \<open>
  Claim C4. Font selection never raises: it takes Monaco when that loads, else
  DejaVuSansMono when that loads, else the built-in font, whatever the size and
  whichever fonts the machine has; no failure to load a font leaves
  \<^verbatim>\<open>create_terminal_icon\<close>.
\<close>

theorem font_selection_total:
  "select_font lib (font_size sz) =
     Inr (if font_loads lib monaco (font_size sz) then TrueType monaco (font_size sz)
          else if font_loads lib dejavu (font_size sz) then TrueType dejavu (font_size sz)
          else DefaultFont) \<and>
   create_terminal_icon lib sz \<noteq> Inl (FontFailed path)"
  using create_terminal_icon_errors [of lib sz] by (auto simp: select_font_eq)

subsection \<open>The calls drawn\<close>




subsection \<open>The font size\<close>





subsection \<open>The loop\<close>

lemma seq_None:
  "seq r k = (None, w') \<Longrightarrow> (\<And>w1. r = (None, w1) \<Longrightarrow> k w1 = (None, w') \<Longrightarrow> P) \<Longrightarrow> P"
  by (cases r) (auto simp: seq_def split: option.splits)

lemma save_None:
  "save lib img name fmt w = (None, w') \<Longrightarrow>
     can_save lib name \<and>
     w' = w\<lparr>files := AList.update name (Encoded fmt img) (files w), trace := trace w @ [Saved name]\<rparr>"
  by (auto simp: save_def split: if_splits)

lemma loop_body_None:
  assumes "loop_body lib sz w = (None, w')"
  shows "\<exists>icon. create_terminal_icon lib sz = Inr icon \<and>
           (\<forall>n \<in> set (names_for sz). can_save lib n) \<and>
           files w' = foldl (\<lambda>fs n. AList.update n (Encoded ''PNG'' icon) fs) (files w) (names_for sz) \<and>
           stdout w' = stdout w \<and>
           trace w' = trace w @ Drew sz # map Saved (names_for sz)"
  using assms unfolding loop_body_def
  by (auto simp: names_for_def split: sum.splits if_splits elim!: seq_None dest!: save_None)

lemma loop_body_ok:
  assumes "create_terminal_icon lib sz = Inr icon" and "\<forall>n \<in> set (names_for sz). can_save lib n"
  shows "loop_body lib sz w =
     (None, w\<lparr>files := foldl (\<lambda>fs n. AList.update n (Encoded ''PNG'' icon) fs) (files w) (names_for sz),
              trace := trace w @ Drew sz # map Saved (names_for sz)\<rparr>)"
  using assms by (auto simp: loop_body_def names_for_def save_def seq_def)

lemma for_sizes_None:
  "for_sizes lib szs w = (None, w') \<Longrightarrow>
     stdout w' = stdout w \<and>
     trace w' = trace w @ concat (map (\<lambda>sz. Drew sz # map Saved (names_for sz)) szs)"
proof (induction szs arbitrary: w)
  case Nil
  then show ?case by simp
next
  case (Cons sz rest)
  from Cons.prems obtain w1 where a: "loop_body lib sz w = (None, w1)"
    and b: "for_sizes lib rest w1 = (None, w')"
    by (auto elim: seq_None)
  from loop_body_None [OF a] Cons.IH [OF b] show ?case by auto
qed

lemma names_16: "names_for 16 = [''icon_16x16.png'']"
  and names_32: "names_for 32 = [''icon_32x32.png'', ''32x32.png'']"
  and names_64: "names_for 64 = [''icon_64x64.png'']"
  and names_128: "names_for 128 = [''icon_128x128.png'', ''128x128.png'', ''128x128@2x.png'']"
  and names_256: "names_for 256 = [''icon_256x256.png'']"
  and names_512: "names_for 512 = [''icon_512x512.png'', ''icon.png'']"
  by (simp_all add: names_for_def str_def str_nat.simps)


lemma seq_Some: "seq (Some e, w) k = (Some e, w)"
  by (simp add: seq_def)

lemma seq_None_eq: "seq (None, w) k = k w"
  by (simp add: seq_def)

lemma map_of_foldl_update:
  "map_of (foldl (\<lambda>fs n. AList.update n v fs) fs0 ns) k =
     (if k \<in> set ns then Some v else map_of fs0 k)"
  by (induction ns arbitrary: fs0) (auto simp: update_conv')

lemma loop_body_Some:
  assumes "loop_body lib sz w = (Some e, w')"
  shows "(create_terminal_icon lib sz = Inl e \<or>
          (\<exists>n \<in> set (names_for sz). e = SaveFailed n \<and> \<not> can_save lib n)) \<and>
         stdout w' = stdout w \<and>
         prefix (trace w') (trace w @ Drew sz # map Saved (names_for sz)) \<and>
         (\<forall>k. k \<notin> set (names_for sz) \<longrightarrow> map_of (files w') k = map_of (files w) k)"
  using assms
  by (cases "create_terminal_icon lib sz")
     (auto simp: loop_body_def names_for_def save_def seq_def update_conv' split: if_splits)

lemma for_sizes_Some:
  "for_sizes lib szs w = (Some e, w') \<Longrightarrow>
     stdout w' = stdout w \<and>
     prefix (trace w') (trace w @ concat (map (\<lambda>sz. Drew sz # map Saved (names_for sz)) szs)) \<and>
     (\<exists>sz \<in> set szs. create_terminal_icon lib sz = Inl e \<or>
          (\<exists>n \<in> set (names_for sz). e = SaveFailed n \<and> \<not> can_save lib n))"
proof (induction szs arbitrary: w)
  case Nil
  then show ?case by simp
next
  case (Cons sz rest)
  show ?case
  proof (cases "loop_body lib sz w")
    case (Pair r w1)
    show ?thesis
    proof (cases r)
      case None
      with Pair Cons.prems have b: "for_sizes lib rest w1 = (Some e, w')"
        by (simp add: seq_def)
      from Pair None have a: "loop_body lib sz w = (None, w1)" by simp
      from loop_body_None [OF a] Cons.IH [OF b] show ?thesis by auto
    next
      case (Some e1)
      with Pair Cons.prems have "e1 = e" and "w1 = w'"
        by (simp_all add: seq_def)
      with Pair Some have "loop_body lib sz w = (Some e, w')" by simp
      from loop_body_Some [OF this] show ?thesis
        by (auto intro: prefix_order.trans)
    qed
  qed
qed

lemma for_sizes_files_other:
  "for_sizes lib szs w = (r, w') \<Longrightarrow> \<forall>sz \<in> set szs. k \<notin> set (names_for sz) \<Longrightarrow>
     map_of (files w') k = map_of (files w) k"
proof (induction szs arbitrary: w)
  case Nil
  then show ?case by simp
next
  case (Cons sz rest)
  show ?case
  proof (cases "loop_body lib sz w")
    case (Pair r1 w1)
    show ?thesis
    proof (cases r1)
      case None
      with Pair Cons.prems have b: "for_sizes lib rest w1 = (r, w')"
        by (simp add: seq_def)
      from Pair None have a: "loop_body lib sz w = (None, w1)" by simp
      from loop_body_None [OF a] Cons.prems(2)
      have "map_of (files w1) k = map_of (files w) k"
        by (auto simp: map_of_foldl_update)
      with Cons.IH [OF b] Cons.prems(2) show ?thesis by simp
    next
      case (Some e1)
      with Pair Cons.prems have "w1 = w'"
        by (simp_all add: seq_def)
      with Pair Some have "loop_body lib sz w = (Some e1, w')" by simp
      from loop_body_Some [OF this] Cons.prems(2) show ?thesis by simp
    qed
  qed
qed

lemma for_sizes_files_saved:
  "for_sizes lib szs w = (None, w') \<Longrightarrow> distinct (concat (map names_for szs)) \<Longrightarrow>
     sz \<in> set szs \<Longrightarrow> k \<in> set (names_for sz) \<Longrightarrow>
     \<exists>icon. create_terminal_icon lib sz = Inr icon \<and> map_of (files w') k = Some (Encoded ''PNG'' icon)"
proof (induction szs arbitrary: w)
  case Nil
  then show ?case by simp
next
  case (Cons s rest)
  from Cons.prems(1) obtain w1 where a: "loop_body lib s w = (None, w1)"
    and b: "for_sizes lib rest w1 = (None, w')"
    by (auto elim: seq_None)
  show ?case
  proof (cases "sz \<in> set rest")
    case True
    from Cons.IH [OF b _ True Cons.prems(4)] Cons.prems(2) show ?thesis by simp
  next
    case False
    with Cons.prems(3) have s: "s = sz" by simp
    from Cons.prems(2,4) s have "\<forall>t \<in> set rest. k \<notin> set (names_for t)"
      by auto
    from for_sizes_files_other [OF b this]
    have "map_of (files w') k = map_of (files w1) k" .
    with loop_body_None [OF a] Cons.prems(4) s show ?thesis
      by (auto simp: map_of_foldl_update)
  qed
qed

lemma print_pngs_eq:
  "print_pngs fs w =
     w\<lparr>stdout := stdout w @ map (\<lambda>f. ''  '' @ f) (filter (\<lambda>f. endswith f ''.png'') fs)\<rparr>"
  by (induction fs arbitrary: w) (simp_all add: print_def)

lemma main_eq:
  "main lib dir =
     (case for_sizes lib sizes \<lparr>files = dir, stdout = [], trace = []\<rparr> of
        (Some e, w) \<Rightarrow> (Some e, w)
      | (None, w) \<Rightarrow>
          (None, w\<lparr>stdout := stdout w @ [''Icons created successfully!'', ''Files created:''] @
             map (\<lambda>f. ''  '' @ f) (filter (\<lambda>f. endswith f ''.png'') (map fst (files w)))\<rparr>))"
  by (simp add: main_def seq_def Let_def print_pngs_eq print_def listdir_def split: prod.splits option.splits)


subsection \<open>A whole run\<close>

lemma sizes_names:
  "concat (map names_for sizes) =
     [''icon_16x16.png'', ''icon_32x32.png'', ''32x32.png'', ''icon_64x64.png'',
      ''icon_128x128.png'', ''128x128.png'', ''128x128@2x.png'', ''icon_256x256.png'',
      ''icon_512x512.png'', ''icon.png'']"
  by (simp add: sizes_def names_16 names_32 names_64 names_128 names_256 names_512)

lemma sizes_events:
  "concat (map (\<lambda>sz. Drew sz # map Saved (names_for sz)) sizes) =
     [Drew 16, Saved ''icon_16x16.png'',
      Drew 32, Saved ''icon_32x32.png'', Saved ''32x32.png'',
      Drew 64, Saved ''icon_64x64.png'',
      Drew 128, Saved ''icon_128x128.png'', Saved ''128x128.png'', Saved ''128x128@2x.png'',
      Drew 256, Saved ''icon_256x256.png'',
      Drew 512, Saved ''icon_512x512.png'', Saved ''icon.png'']"
  by (simp add: sizes_def names_16 names_32 names_64 names_128 names_256 names_512)

lemma sizes_names_distinct: "distinct (concat (map names_for sizes))"
  unfolding sizes_names by simp

lemma for_sizes_succeeds:
  assumes "\<forall>img op. draw_accepts lib img op" and "\<forall>n. can_save lib n"
  shows "\<forall>sz \<in> set szs. 0 \<le> sz \<Longrightarrow> fst (for_sizes lib szs w) = None"
proof (induction szs arbitrary: w)
  case Nil
  then show ?case by simp
next
  case (Cons sz rest)
  then have "0 \<le> sz" by simp
  from create_terminal_icon_returns [OF this assms(1)]
  obtain icon where "create_terminal_icon lib sz = Inr icon" by auto
  from loop_body_ok [OF this] assms(2) Cons show ?case
    by (simp add: seq_def)
qed

lemma main_succeeds:
  assumes "\<forall>img op. draw_accepts lib img op" and "\<forall>n. can_save lib n"
  shows "fst (main lib dir) = None"
proof -
  have "fst (for_sizes lib sizes \<lparr>files = dir, stdout = [], trace = []\<rparr>) = None"
    by (rule for_sizes_succeeds [OF assms]) (simp add: sizes_def)
  then show ?thesis
    by (cases "for_sizes lib sizes \<lparr>files = dir, stdout = [], trace = []\<rparr>")
       (auto simp: main_eq)
qed

lemma main_None:
  assumes "main lib dir = (None, w')"
  shows "\<exists>w1. for_sizes lib sizes \<lparr>files = dir, stdout = [], trace = []\<rparr> = (None, w1) \<and>
           files w' = files w1 \<and> trace w' = trace w1"
  using assms by (auto simp: main_eq split: prod.splits option.splits)

lemma written_events:
  "written w = concat (map (\<lambda>ev. case ev of Drew sz \<Rightarrow> [] | Saved name \<Rightarrow> [name]) (trace w))"
  by (simp add: written_def)

text \<open>
  Claim C6. The sizes are processed one after the other in the order 16, 32, 64, 128,
  256, 512: each icon is drawn and all of its files are saved before the next icon is
  drawn. The events of a run that ends normally are exactly this sequence, and those of a
  run that an exception ends are a beginning of it.
\<close>

theorem sizes_in_order:
  "prefix (trace (snd (main lib dir)))
     [Drew 16, Saved ''icon_16x16.png'',
      Drew 32, Saved ''icon_32x32.png'', Saved ''32x32.png'',
      Drew 64, Saved ''icon_64x64.png'',
      Drew 128, Saved ''icon_128x128.png'', Saved ''128x128.png'', Saved ''128x128@2x.png'',
      Drew 256, Saved ''icon_256x256.png'',
      Drew 512, Saved ''icon_512x512.png'', Saved ''icon.png''] \<and>
   (fst (main lib dir) = None \<longrightarrow>
    trace (snd (main lib dir)) =
     [Drew 16, Saved ''icon_16x16.png'',
      Drew 32, Saved ''icon_32x32.png'', Saved ''32x32.png'',
      Drew 64, Saved ''icon_64x64.png'',
      Drew 128, Saved ''icon_128x128.png'', Saved ''128x128.png'', Saved ''128x128@2x.png'',
      Drew 256, Saved ''icon_256x256.png'',
      Drew 512, Saved ''icon_512x512.png'', Saved ''icon.png''])"
proof (cases "for_sizes lib sizes \<lparr>files = dir, stdout = [], trace = []\<rparr>")
  case (Pair r w1)
  show ?thesis
  proof (cases r)
    case None
    with Pair have a: "for_sizes lib sizes \<lparr>files = dir, stdout = [], trace = []\<rparr> = (None, w1)"
      by simp
    from for_sizes_None [OF a] have "trace w1 = concat (map (\<lambda>sz. Drew sz # map Saved (names_for sz)) sizes)"
      by simp
    with a show ?thesis
      unfolding sizes_events by (simp add: main_eq)
  next
    case (Some e)
    with Pair have a: "for_sizes lib sizes \<lparr>files = dir, stdout = [], trace = []\<rparr> = (Some e, w1)"
      by simp
    from for_sizes_Some [OF a]
    have "prefix (trace w1) (concat (map (\<lambda>sz. Drew sz # map Saved (names_for sz)) sizes))"
      by simp
    with a show ?thesis
      unfolding sizes_events by (simp add: main_eq)
  qed
qed

theorem sizes_in_order_witness:
  "fst (main bare_env []) = None \<and>
   trace (snd (main bare_env [])) =
     [Drew 16, Saved ''icon_16x16.png'',
      Drew 32, Saved ''icon_32x32.png'', Saved ''32x32.png'',
      Drew 64, Saved ''icon_64x64.png'',
      Drew 128, Saved ''icon_128x128.png'', Saved ''128x128.png'', Saved ''128x128@2x.png'',
      Drew 256, Saved ''icon_256x256.png'',
      Drew 512, Saved ''icon_512x512.png'', Saved ''icon.png'']"
proof -
  have a: "fst (main bare_env []) = None"
    by (rule main_succeeds) (simp_all add: bare_env_def)
  from sizes_in_order [of bare_env "[]"] a show ?thesis by simp
qed

text \<open>
  Claim C2. After a run that ends normally, the files written are exactly the six size
  variants and the four renamed copies; their names have no directory part, so they are
  entries of the current working directory, each holds a PNG, and every other entry of
  the directory is as it was.
\<close>

theorem files_written:
  assumes "main lib dir = (None, w')"
  shows "set (written w') =
           {''icon_16x16.png'', ''icon_32x32.png'', ''icon_64x64.png'', ''icon_128x128.png'',
            ''icon_256x256.png'', ''icon_512x512.png'',
            ''32x32.png'', ''128x128.png'', ''128x128@2x.png'', ''icon.png''} \<and>
         (\<forall>n \<in> set (written w'). CHR ''/'' \<notin> set n \<and>
            (\<exists>img. map_of (files w') n = Some (Encoded ''PNG'' img))) \<and>
         (\<forall>n. n \<notin> set (written w') \<longrightarrow> map_of (files w') n = map_of dir n)"
proof -
  from main_None [OF assms] obtain w1
    where a: "for_sizes lib sizes \<lparr>files = dir, stdout = [], trace = []\<rparr> = (None, w1)"
      and f: "files w' = files w1" and t: "trace w' = trace w1"
    by auto
  from for_sizes_None [OF a] t
  have "trace w' = concat (map (\<lambda>sz. Drew sz # map Saved (names_for sz)) sizes)"
    by simp
  then have w: "written w' = concat (map names_for sizes)"
    unfolding sizes_events sizes_names by (simp add: written_def)
  have 1: "set (written w') =
           {''icon_16x16.png'', ''icon_32x32.png'', ''icon_64x64.png'', ''icon_128x128.png'',
            ''icon_256x256.png'', ''icon_512x512.png'',
            ''32x32.png'', ''128x128.png'', ''128x128@2x.png'', ''icon.png''}"
    unfolding w sizes_names by auto
  have 2: "\<forall>n \<in> set (written w'). CHR ''/'' \<notin> set n"
    unfolding w sizes_names by simp
  have 3: "\<exists>img. map_of (files w') n = Some (Encoded ''PNG'' img)" if "n \<in> set (written w')" for n
  proof -
    from that w obtain sz where "sz \<in> set sizes" and "n \<in> set (names_for sz)"
      by auto
    from for_sizes_files_saved [OF a sizes_names_distinct this] f show ?thesis
      by auto
  qed
  have 4: "map_of (files w') n = map_of dir n" if "n \<notin> set (written w')" for n
  proof -
    from that w have "\<forall>sz \<in> set sizes. n \<notin> set (names_for sz)"
      by auto
    from for_sizes_files_other [OF a this] f show ?thesis by simp
  qed
  from 1 2 3 4 show ?thesis by blast
qed


theorem files_written_witness:
  "main bare_env [] = (None, snd (main bare_env [])) \<and>
   set (written (snd (main bare_env []))) =
     {''icon_16x16.png'', ''icon_32x32.png'', ''icon_64x64.png'', ''icon_128x128.png'',
      ''icon_256x256.png'', ''icon_512x512.png'',
      ''32x32.png'', ''128x128.png'', ''128x128@2x.png'', ''icon.png''}"
proof -
  have "fst (main bare_env []) = None"
    by (rule main_succeeds) (simp_all add: bare_env_def)
  then have a: "main bare_env [] = (None, snd (main bare_env []))"
    by (metis prod.collapse)
  have b: "set (written (snd (main bare_env []))) =
     {''icon_16x16.png'', ''icon_32x32.png'', ''icon_64x64.png'', ''icon_128x128.png'',
      ''icon_256x256.png'', ''icon_512x512.png'',
      ''32x32.png'', ''128x128.png'', ''128x128@2x.png'', ''icon.png''}"
    using files_written [OF a] by (rule conjunct1)
  from a b show ?thesis by (rule conjI)
qed

text \<open>
  Claim C10. Each renamed copy is the image of its size variant, saved in the same
  format: \<^verbatim>\<open>32x32.png\<close> holds what \<^verbatim>\<open>icon_32x32.png\<close> holds, \<^verbatim>\<open>128x128.png\<close> and
  \<^verbatim>\<open>128x128@2x.png\<close> what \<^verbatim>\<open>icon_128x128.png\<close> holds, and \<^verbatim>\<open>icon.png\<close> what
  \<^verbatim>\<open>icon_512x512.png\<close> holds.
\<close>

theorem renamed_copies_identical:
  assumes "main lib dir = (None, w')"
  shows "\<exists>i32 i128 i512.
     create_terminal_icon lib 32 = Inr i32 \<and>
     create_terminal_icon lib 128 = Inr i128 \<and>
     create_terminal_icon lib 512 = Inr i512 \<and>
     map_of (files w') ''icon_32x32.png'' = Some (Encoded ''PNG'' i32) \<and>
     map_of (files w') ''32x32.png'' = Some (Encoded ''PNG'' i32) \<and>
     map_of (files w') ''icon_128x128.png'' = Some (Encoded ''PNG'' i128) \<and>
     map_of (files w') ''128x128.png'' = Some (Encoded ''PNG'' i128) \<and>
     map_of (files w') ''128x128@2x.png'' = Some (Encoded ''PNG'' i128) \<and>
     map_of (files w') ''icon_512x512.png'' = Some (Encoded ''PNG'' i512) \<and>
     map_of (files w') ''icon.png'' = Some (Encoded ''PNG'' i512)"
proof -
  from main_None [OF assms] obtain w1
    where a: "for_sizes lib sizes \<lparr>files = dir, stdout = [], trace = []\<rparr> = (None, w1)"
      and f: "files w' = files w1"
    by auto
  note saved = for_sizes_files_saved [OF a sizes_names_distinct]
  have s: "32 \<in> set sizes" "128 \<in> set sizes" "512 \<in> set sizes"
    by (simp_all add: sizes_def)
  from saved [OF s(1), of "''icon_32x32.png''"] saved [OF s(1), of "''32x32.png''"]
  obtain i32 where 1: "create_terminal_icon lib 32 = Inr i32"
    "map_of (files w') ''icon_32x32.png'' = Some (Encoded ''PNG'' i32)"
    "map_of (files w') ''32x32.png'' = Some (Encoded ''PNG'' i32)"
    unfolding names_32 f by auto
  from saved [OF s(2), of "''icon_128x128.png''"] saved [OF s(2), of "''128x128.png''"]
    saved [OF s(2), of "''128x128@2x.png''"]
  obtain i128 where 2: "create_terminal_icon lib 128 = Inr i128"
    "map_of (files w') ''icon_128x128.png'' = Some (Encoded ''PNG'' i128)"
    "map_of (files w') ''128x128.png'' = Some (Encoded ''PNG'' i128)"
    "map_of (files w') ''128x128@2x.png'' = Some (Encoded ''PNG'' i128)"
    unfolding names_128 f by auto
  from saved [OF s(3), of "''icon_512x512.png''"] saved [OF s(3), of "''icon.png''"]
  obtain i512 where 3: "create_terminal_icon lib 512 = Inr i512"
    "map_of (files w') ''icon_512x512.png'' = Some (Encoded ''PNG'' i512)"
    "map_of (files w') ''icon.png'' = Some (Encoded ''PNG'' i512)"
    unfolding names_512 f by auto
  from 1 2 3 show ?thesis by blast
qed

theorem renamed_copies_identical_witness:
  "main bare_env [] = (None, snd (main bare_env [])) \<and>
   map_of (files (snd (main bare_env []))) ''32x32.png'' =
     map_of (files (snd (main bare_env []))) ''icon_32x32.png'' \<and>
   map_of (files (snd (main bare_env []))) ''128x128.png'' =
     map_of (files (snd (main bare_env []))) ''icon_128x128.png'' \<and>
   map_of (files (snd (main bare_env []))) ''128x128@2x.png'' =
     map_of (files (snd (main bare_env []))) ''icon_128x128.png'' \<and>
   map_of (files (snd (main bare_env []))) ''icon.png'' =
     map_of (files (snd (main bare_env []))) ''icon_512x512.png''"
proof -
  have "fst (main bare_env []) = None"
    by (rule main_succeeds) (simp_all add: bare_env_def)
  then have a: "main bare_env [] = (None, snd (main bare_env []))"
    by (metis prod.collapse)
  from renamed_copies_identical [OF a]
  have "map_of (files (snd (main bare_env []))) ''32x32.png'' =
     map_of (files (snd (main bare_env []))) ''icon_32x32.png'' \<and>
   map_of (files (snd (main bare_env []))) ''128x128.png'' =
     map_of (files (snd (main bare_env []))) ''icon_128x128.png'' \<and>
   map_of (files (snd (main bare_env []))) ''128x128@2x.png'' =
     map_of (files (snd (main bare_env []))) ''icon_128x128.png'' \<and>
   map_of (files (snd (main bare_env []))) ''icon.png'' =
     map_of (files (snd (main bare_env []))) ''icon_512x512.png''"
    by (elim exE conjE) (simp only:)
  with a show ?thesis by (rule conjI)
qed


subsection \<open>Exceptions that leave the script\<close>

lemma for_sizes_append:
  "for_sizes lib (xs @ ys) w = seq (for_sizes lib xs w) (for_sizes lib ys)"
  by (induction xs arbitrary: w) (auto simp: seq_def split: prod.splits option.splits)

lemma loop_body_raises:
  assumes "create_terminal_icon lib sz = Inl e0 \<or> (\<exists>n \<in> set (names_for sz). \<not> can_save lib n)"
  shows "\<exists>e w'. loop_body lib sz w = (Some e, w')"
proof (cases "loop_body lib sz w")
  case (Pair r w')
  show ?thesis
  proof (cases r)
    case None
    with Pair have "loop_body lib sz w = (None, w')" by simp
    from loop_body_None [OF this] assms show ?thesis by auto
  next
    case (Some e)
    with Pair show ?thesis by simp
  qed
qed

lemma sizes_distinct: "distinct sizes"
  by (simp add: sizes_def)

text \<open>
  Claim C5, as amended. Every failure other than loading a font and measuring a text
  leaves the script uncaught: when \<^verbatim>\<open>create_terminal_icon\<close> raises for a size (an
  exception of \<^verbatim>\<open>Image.new\<close> or of a drawing call) or a \<^verbatim>\<open>save\<close> of that size raises,
  \<^verbatim>\<open>main\<close> ends with that exception, no later size is drawn and nothing is printed.
\<close>

theorem failures_propagate:
  assumes "sizes = before @ sz # after"
    and "for_sizes lib before \<lparr>files = dir, stdout = [], trace = []\<rparr> = (None, w)"
    and "create_terminal_icon lib sz = Inl e0 \<or> (\<exists>n \<in> set (names_for sz). \<not> can_save lib n)"
  shows "\<exists>e w'. main lib dir = (Some e, w') \<and>
           (create_terminal_icon lib sz = Inl e \<or>
            (\<exists>n \<in> set (names_for sz). e = SaveFailed n \<and> \<not> can_save lib n)) \<and>
           stdout w' = [] \<and>
           (\<forall>s \<in> set after. Drew s \<notin> set (trace w'))"
proof -
  from loop_body_raises [OF assms(3)] obtain e w' where b: "loop_body lib sz w = (Some e, w')"
    by blast
  have "for_sizes lib sizes \<lparr>files = dir, stdout = [], trace = []\<rparr> = (Some e, w')"
    unfolding assms(1) for_sizes_append using assms(2) b by (simp add: seq_def)
  then have m: "main lib dir = (Some e, w')"
    by (simp add: main_eq)
  from for_sizes_None [OF assms(2)]
  have w: "stdout w = []" "trace w = concat (map (\<lambda>sz. Drew sz # map Saved (names_for sz)) before)"
    by simp_all
  from loop_body_Some [OF b]
  have c: "create_terminal_icon lib sz = Inl e \<or>
            (\<exists>n \<in> set (names_for sz). e = SaveFailed n \<and> \<not> can_save lib n)"
    and s: "stdout w' = stdout w"
    and p: "prefix (trace w') (trace w @ Drew sz # map Saved (names_for sz))"
    by blast+
  have "Drew s \<notin> set (trace w')" if "s \<in> set after" for s
  proof
    assume "Drew s \<in> set (trace w')"
    with p have "Drew s \<in> set (trace w @ Drew sz # map Saved (names_for sz))"
      using set_mono_prefix by blast
    with w(2) have "s \<in> set before \<or> s = sz" by auto
    with that sizes_distinct show False
      unfolding assms(1) by auto
  qed
  with m c s w(1) show ?thesis by auto
qed

theorem failures_propagate_witness:
  "sizes = [] @ 16 # [32, 64, 128, 256, 512] \<and>
   for_sizes readonly_env [] \<lparr>files = [], stdout = [], trace = []\<rparr> =
     (None, \<lparr>files = [], stdout = [], trace = []\<rparr>) \<and>
   (\<exists>n \<in> set (names_for 16). \<not> can_save readonly_env n) \<and>
   (\<exists>e w'. main readonly_env [] = (Some e, w') \<and>
      (create_terminal_icon readonly_env 16 = Inl e \<or>
       (\<exists>n \<in> set (names_for 16). e = SaveFailed n \<and> \<not> can_save readonly_env n)) \<and>
      stdout w' = [] \<and>
      (\<forall>s \<in> set [32, 64, 128, 256, 512]. Drew s \<notin> set (trace w')))"
proof -
  have a: "sizes = [] @ 16 # [32, 64, 128, 256, 512]"
    by (simp add: sizes_def)
  have b: "for_sizes readonly_env [] \<lparr>files = [], stdout = [], trace = []\<rparr> =
     (None, \<lparr>files = [], stdout = [], trace = []\<rparr>)"
    by simp
  have c: "\<exists>n \<in> set (names_for 16). \<not> can_save readonly_env n"
    by (simp add: names_16 readonly_env_def)
  then have c': "create_terminal_icon readonly_env 16 = Inl e0 \<or>
       (\<exists>n \<in> set (names_for 16). \<not> can_save readonly_env n)" for e0
    by (rule disjI2)
  from failures_propagate [OF a b c'] a b c show ?thesis
    by (intro conjI)
qed

text \<open>
  Claim C5 as stated fails: measuring a text is not a font lookup, and its failure is
  caught too (lines 62 to 65 and 70 to 73). On the sample machine the built-in font is
  found, measuring the prompt with it raises, the estimate is used instead, and the run
  ends normally.
\<close>

theorem measuring_failure_swallowed:
  "select_font bare_env (font_size 16) = Inr DefaultFont \<and>
   getlength bare_env DefaultFont prompt_text = Inl MeasureFailed \<and>
   measured_width bare_env DefaultFont prompt_text (font_size 16) = Inr (72 / 5) \<and>
   fst (main bare_env []) = None"
proof -
  have "fst (main bare_env []) = None"
    by (rule main_succeeds) (simp_all add: bare_env_def)
  then show ?thesis
    by (simp add: select_font_eq measured_width_eq getlength_def bare_env_def font_size_def
          prompt_text_def)
qed


subsection \<open>The listing printed at the end\<close>

lemma keys_foldl_update:
  "map fst (foldl (\<lambda>fs n. AList.update n v fs) fs0 ns) =
     foldl (\<lambda>ks n. if n \<in> set ks then ks else ks @ [n]) (map fst fs0) ns"
  by (induction ns arbitrary: fs0) (simp_all add: update_keys)

lemma for_sizes_listing:
  "for_sizes lib szs w = (None, w') \<Longrightarrow>
     map fst (files w') =
       foldl (\<lambda>ks n. if n \<in> set ks then ks else ks @ [n]) (map fst (files w))
         (concat (map names_for szs))"
proof (induction szs arbitrary: w)
  case Nil
  then show ?case by simp
next
  case (Cons sz rest)
  from Cons.prems obtain w1 where a: "loop_body lib sz w = (None, w1)"
    and b: "for_sizes lib rest w1 = (None, w')"
    by (auto elim: seq_None)
  from loop_body_None [OF a] obtain icon where
    "files w1 = foldl (\<lambda>fs n. AList.update n (Encoded ''PNG'' icon) fs) (files w) (names_for sz)"
    by auto
  then have "map fst (files w1) =
     foldl (\<lambda>ks n. if n \<in> set ks then ks else ks @ [n]) (map fst (files w)) (names_for sz)"
    by (simp add: keys_foldl_update)
  with Cons.IH [OF b] show ?case by simp
qed

lemma main_stdout:
  assumes "main lib dir = (None, w')"
  shows "stdout w' =
     [''Icons created successfully!'', ''Files created:''] @
     map (\<lambda>f. ''  '' @ f) (filter (\<lambda>f. endswith f ''.png'')
       (foldl (\<lambda>ks n. if n \<in> set ks then ks else ks @ [n]) (map fst dir)
          (concat (map names_for sizes))))"
proof (cases "for_sizes lib sizes \<lparr>files = dir, stdout = [], trace = []\<rparr>")
  case (Pair r w1)
  with assms have r: "r = None"
    by (cases r) (simp_all add: main_eq)
  with Pair have a: "for_sizes lib sizes \<lparr>files = dir, stdout = [], trace = []\<rparr> = (None, w1)"
    by simp
  from for_sizes_None [OF a] have "stdout w1 = []" by simp
  with assms a for_sizes_listing [OF a] show ?thesis
    by (auto simp: main_eq)
qed

lemma main_written:
  assumes "main lib dir = (None, w')"
  shows "written w' = concat (map names_for sizes)"
proof -
  from main_None [OF assms] obtain w1
    where a: "for_sizes lib sizes \<lparr>files = dir, stdout = [], trace = []\<rparr> = (None, w1)"
      and t: "trace w' = trace w1"
    by auto
  from for_sizes_None [OF a] t
  have "trace w' = concat (map (\<lambda>sz. Drew sz # map Saved (names_for sz)) sizes)"
    by simp
  then show ?thesis
    unfolding sizes_events sizes_names by (simp add: written_def)
qed

text \<open>
  Claim C3. On completion the script prints the names of the files it created, one per
  line after the banner. The code prints, under the heading \<^verbatim>\<open>Files created:\<close>, every
  entry of the directory that ends in \<^verbatim>\<open>.png\<close>: run in a directory that already holds
  \<^verbatim>\<open>StoreLogo.png\<close>, it lists that file too, though it never wrote it.
\<close>

theorem listing_prints_foreign_file:
  "stdout (snd (main bare_env [(''StoreLogo.png'', Other)])) =
     [''Icons created successfully!'', ''Files created:'',
      ''  StoreLogo.png'', ''  icon_16x16.png'', ''  icon_32x32.png'', ''  32x32.png'',
      ''  icon_64x64.png'', ''  icon_128x128.png'', ''  128x128.png'', ''  128x128@2x.png'',
      ''  icon_256x256.png'', ''  icon_512x512.png'', ''  icon.png''] \<and>
   ''StoreLogo.png'' \<notin> set (written (snd (main bare_env [(''StoreLogo.png'', Other)])))"
proof -
  let ?dir = "[(''StoreLogo.png'', Other)]"
  have "fst (main bare_env ?dir) = None"
    by (rule main_succeeds) (simp_all add: bare_env_def)
  then have a: "main bare_env ?dir = (None, snd (main bare_env ?dir))"
    by (metis prod.collapse)
  have 1: "stdout (snd (main bare_env ?dir)) =
     [''Icons created successfully!'', ''Files created:'',
      ''  StoreLogo.png'', ''  icon_16x16.png'', ''  icon_32x32.png'', ''  32x32.png'',
      ''  icon_64x64.png'', ''  icon_128x128.png'', ''  128x128.png'', ''  128x128@2x.png'',
      ''  icon_256x256.png'', ''  icon_512x512.png'', ''  icon.png'']"
    unfolding main_stdout [OF a] sizes_names by (simp add: endswith_def)
  have "written (snd (main bare_env ?dir)) = concat (map names_for sizes)"
    by (rule main_written [OF a])
  then have 2: "''StoreLogo.png'' \<notin> set (written (snd (main bare_env ?dir)))"
    unfolding sizes_names by simp
  from 1 2 show ?thesis by (rule conjI)
qed


subsection \<open>Transparency\<close>











end
